theory Spec2Isabelle
  imports Main "HOL-Library.Char_ord" "HOL-Library.List_Lexorder"
begin

section \<open>Data model (App.tsx, latest variant)\<close>

text \<open>
  \<^verbatim>\<open>type Story = { objectID: string; url: string; title: string; author: string;
                 num_comments: number; points: number }\<close>
  The two numeric fields hold integers of the search API.
\<close>

record Story =
  objectID :: string
  url :: string
  title :: string
  author :: string
  num_comments :: int
  points :: int

text \<open>
  \<^verbatim>\<open>type StoriesState = { data: Stories; page: number; isLoading: boolean; isError: boolean }\<close>
\<close>

record StoriesState =
  data :: "Story list"
  page :: int
  isLoading :: bool
  isError :: bool

text \<open>
  The union \<^verbatim>\<open>StoriesAction\<close> has four members, told apart by their \<^verbatim>\<open>type\<close> tag.
  The reducer's \<^verbatim>\<open>switch\<close> has a \<^verbatim>\<open>default\<close> branch for every other tag, which the
  type checker excludes but an untyped caller can reach (the JavaScript variant of the
  application dispatches the tag \<^verbatim>\<open>REMOVE_STORIES\<close>). The fifth constructor stands for
  such an object; it carries its tag, which is none of the four recognised ones.
\<close>

datatype StoriesAction =
    STORIES_FETCH_INIT
  | STORIES_FETCH_SUCCESS "Story list" int
  | STORIES_FETCH_FAILURE
  | REMOVE_STORY Story
  | OTHER_ACTION string

fun action_type :: "StoriesAction \<Rightarrow> string" where
  "action_type STORIES_FETCH_INIT = ''STORIES_FETCH_INIT''"
| "action_type (STORIES_FETCH_SUCCESS list pageNo) = ''STORIES_FETCH_SUCCESS''"
| "action_type STORIES_FETCH_FAILURE = ''STORIES_FETCH_FAILURE''"
| "action_type (REMOVE_STORY story) = ''REMOVE_STORY''"
| "action_type (OTHER_ACTION tag) = tag"

definition recognised_types :: "string list" where
  "recognised_types =
     [''STORIES_FETCH_INIT'', ''STORIES_FETCH_SUCCESS'', ''STORIES_FETCH_FAILURE'', ''REMOVE_STORY'']"

text \<open>\<^verbatim>\<open>throw new Error()\<close> is the only exception the reducer raises.\<close>

datatype error = Error

section \<open>The reducer\<close>

text \<open>
  \<^verbatim>\<open>storiesReducer(state, action)\<close>: each \<^verbatim>\<open>case\<close> returns a copy of the state with some
  fields replaced; \<^verbatim>\<open>default\<close> throws. \<^verbatim>\<open>concat\<close> is list append and \<^verbatim>\<open>filter\<close> keeps
  the stories whose \<^verbatim>\<open>objectID\<close> differs from the payload's.
\<close>

fun storiesReducer :: "StoriesState \<Rightarrow> StoriesAction \<Rightarrow> error + StoriesState" where
  "storiesReducer state STORIES_FETCH_INIT =
     Inr (state\<lparr>isLoading := True, isError := False\<rparr>)"
| "storiesReducer state (STORIES_FETCH_SUCCESS list pageNo) =
     Inr (state\<lparr>isLoading := False, isError := False,
                data := (if pageNo = 0 then list else data state @ list),
                page := pageNo\<rparr>)"
| "storiesReducer state STORIES_FETCH_FAILURE =
     Inr (state\<lparr>isLoading := False, isError := True\<rparr>)"
| "storiesReducer state (REMOVE_STORY payload) =
     Inr (state\<lparr>data := filter (\<lambda>story. objectID payload \<noteq> objectID story) (data state)\<rparr>)"
| "storiesReducer state (OTHER_ACTION tag) = Inl Error"

text \<open>The state \<^verbatim>\<open>useReducer\<close> starts from in \<^verbatim>\<open>App\<close>.\<close>

definition initialState :: StoriesState where
  "initialState = \<lparr>data = [], page = 0, isLoading = False, isError = False\<rparr>"

text \<open>
  Dispatching a sequence of actions: each one is reduced on the state the previous one
  left; an exception ends the sequence.
\<close>

fun dispatchAll :: "StoriesState \<Rightarrow> StoriesAction list \<Rightarrow> error + StoriesState" where
  "dispatchAll state [] = Inr state"
| "dispatchAll state (a # as) =
     (case storiesReducer state a of
        Inl e \<Rightarrow> Inl e
      | Inr state' \<Rightarrow> dispatchAll state' as)"

text \<open>The four recognised actions, as a test on the constructor.\<close>

fun is_recognised :: "StoriesAction \<Rightarrow> bool" where
  "is_recognised (OTHER_ACTION tag) = False"
| "is_recognised a = True"

text \<open>
  Following the words of the specification for \<^verbatim>\<open>REMOVE_ITEM\<close>: the items with the single
  entry whose identifier equals the given one removed, and no change when there is none.
\<close>

fun remove_single :: "string \<Rightarrow> Story list \<Rightarrow> Story list" where
  "remove_single ident [] = []"
| "remove_single ident (s # ss) =
     (if objectID s = ident then ss else s # remove_single ident ss)"

section \<open>Query URLs and the search history\<close>

text \<open>
  The string methods the code calls, on strings as lists of characters.
  \<^verbatim>\<open>s.lastIndexOf(c)\<close> is the index of the last occurrence of \<open>c\<close>, or -1.
\<close>

fun lastIndexOf :: "string \<Rightarrow> char \<Rightarrow> int" where
  "lastIndexOf [] c = - 1"
| "lastIndexOf (x # xs) c =
     (let r = lastIndexOf xs c in
      if 0 \<le> r then r + 1 else if x = c then 0 else - 1)"

text \<open>
  \<^verbatim>\<open>s.substring(indexStart, indexEnd)\<close>: each index is clamped to \<open>0 .. length\<close>, the two
  are swapped when the first is the larger, and the characters from the smaller
  (inclusive) to the larger (exclusive) are returned.
\<close>

definition substring :: "string \<Rightarrow> int \<Rightarrow> int \<Rightarrow> string" where
  "substring s indexStart indexEnd =
     (let len = int (length s);
          a = max 0 (min indexStart len);
          b = max 0 (min indexEnd len);
          lo = min a b;
          hi = max a b
      in take (nat (hi - lo)) (drop (nat lo) s))"

text \<open>
  \<^verbatim>\<open>s.replace(pattern, replacement)\<close> with a string pattern replaces the first occurrence
  of the pattern only. The one replacement the code passes is the empty string.
\<close>

fun replace :: "string \<Rightarrow> string \<Rightarrow> string \<Rightarrow> string" where
  "replace [] pat rep = (if pat = [] then rep else [])"
| "replace (c # cs) pat rep =
     (if take (length pat) (c # cs) = pat then rep @ drop (length pat) (c # cs)
      else c # replace cs pat rep)"

text \<open>
  \<^verbatim>\<open>xs.slice(start, end)\<close>: a negative index counts from the end, both are clamped to
  \<open>0 .. length\<close>, and an absent end is the length.
\<close>

definition slice :: "'a list \<Rightarrow> int \<Rightarrow> int option \<Rightarrow> 'a list" where
  "slice xs start fin =
     (let len = int (length xs);
          k = (if start < 0 then max (len + start) 0 else min start len);
          e = (case fin of
                 None \<Rightarrow> len
               | Some f \<Rightarrow> if f < 0 then max (len + f) 0 else min f len)
      in take (nat (e - k)) (drop (nat k) xs))"

text \<open>
  A page number in a template literal: an integer of magnitude below \<open>10\<^sup>2\<^sup>1\<close> is written
  in plain decimal, with a leading minus sign when negative. The page indices of the
  search API are such integers; larger numbers (written with an exponent), fractions and
  \<^verbatim>\<open>NaN\<close> are outside this model.
\<close>

definition digit_char :: "nat \<Rightarrow> char" where
  "digit_char d =
     (if d = 0 then CHR ''0'' else if d = 1 then CHR ''1'' else if d = 2 then CHR ''2''
      else if d = 3 then CHR ''3'' else if d = 4 then CHR ''4'' else if d = 5 then CHR ''5''
      else if d = 6 then CHR ''6'' else if d = 7 then CHR ''7'' else if d = 8 then CHR ''8''
      else CHR ''9'')"

fun nat_to_string :: "nat \<Rightarrow> string" where
  "nat_to_string n =
     (if n < 10 then [digit_char n]
      else nat_to_string (n div 10) @ [digit_char (n mod 10)])"

declare nat_to_string.simps [simp del]

definition number_to_string :: "int \<Rightarrow> string" where
  "number_to_string i =
     (if i < 0 then CHR ''-'' # nat_to_string (nat (- i)) else nat_to_string (nat i))"

definition API_BASE :: string where
  "API_BASE = ''https://hn.algolia.com/api/v1''"

definition API_SEARCH :: string where
  "API_SEARCH = ''/search''"

definition PARAM_SEARCH :: string where
  "PARAM_SEARCH = ''query=''"

definition PARAM_PAGE :: string where
  "PARAM_PAGE = ''page=''"

definition getUrl :: "string \<Rightarrow> int \<Rightarrow> string" where
  "getUrl searchTerm pageNo =
     API_BASE @ API_SEARCH @ ''?'' @ PARAM_SEARCH @ searchTerm @ ''&'' @ PARAM_PAGE @
     number_to_string pageNo"

definition extractSearchTerm :: "string \<Rightarrow> string" where
  "extractSearchTerm u =
     replace (substring u (lastIndexOf u (CHR ''?'') + 1) (lastIndexOf u (CHR ''&'')))
       PARAM_SEARCH []"

text \<open>
  \<^verbatim>\<open>xs.reduce(callback, initial)\<close> calls the callback with the accumulator, the element
  and its index, from left to right.
\<close>

fun reduce :: "('b \<Rightarrow> 'a \<Rightarrow> nat \<Rightarrow> 'b) \<Rightarrow> 'b \<Rightarrow> nat \<Rightarrow> 'a list \<Rightarrow> 'b" where
  "reduce f acc i [] = acc"
| "reduce f acc i (x # xs) = reduce f (f acc x i) (Suc i) xs"

text \<open>
  The callback of \<^verbatim>\<open>getLastSearches\<close>. \<^verbatim>\<open>result[result.length - 1]\<close> is \<^verbatim>\<open>undefined\<close> on
  an empty array, which no string equals.
\<close>

definition lastSearchesStep :: "string list \<Rightarrow> string \<Rightarrow> nat \<Rightarrow> string list" where
  "lastSearchesStep result u index =
     (let searchTerm = extractSearchTerm u in
      if index = 0 then result @ [searchTerm]
      else
        let previousSearchTerm = (if result = [] then None else Some (last result)) in
        if Some searchTerm = previousSearchTerm then result
        else result @ [searchTerm])"

definition getLastSearches :: "string list \<Rightarrow> string list" where
  "getLastSearches urls =
     slice (slice (reduce lastSearchesStep [] 0 urls) (- 6) None) 0 (Some (- 1))"

text \<open>
  Following the words of the specification for \<^verbatim>\<open>deriveRecentTerms\<close>: a term that equals
  its immediate predecessor in the sequence is dropped, every other term is kept.
  \<open>collapse_after p ts\<close> collapses \<open>ts\<close>, whose predecessor in the sequence is \<open>p\<close>.
\<close>

fun collapse_after :: "'a \<Rightarrow> 'a list \<Rightarrow> 'a list" where
  "collapse_after p [] = []"
| "collapse_after p (t # ts) =
     (if t = p then collapse_after t ts else t # collapse_after t ts)"

fun collapse_adjacent :: "'a list \<Rightarrow> 'a list" where
  "collapse_adjacent [] = []"
| "collapse_adjacent (t # ts) = t # collapse_after t ts"

text \<open>The last \<open>n\<close> elements of a list.\<close>

definition take_last :: "nat \<Rightarrow> 'a list \<Rightarrow> 'a list" where
  "take_last n xs = drop (length xs - n) xs"

text \<open>
  \<^verbatim>\<open>handleSearch(searchTerm, page)\<close> appends the URL built from the term and the page to
  the history: \<^verbatim>\<open>setUrls(urls.concat(url))\<close>. Every URL of the history is appended this
  way (the first one is \<^verbatim>\<open>getUrl(searchTerm, 0)\<close>), so the history is given by the searches
  issued, each a term and a page.
\<close>

definition handleSearch :: "string list \<Rightarrow> string \<Rightarrow> int \<Rightarrow> string list" where
  "handleSearch urls searchTerm pageNo = urls @ [getUrl searchTerm pageNo]"

definition urlHistory :: "(string \<times> int) list \<Rightarrow> string list" where
  "urlHistory searches =
     foldl (\<lambda>urls (searchTerm, pageNo). handleSearch urls searchTerm pageNo) [] searches"

text \<open>
  The recent terms as the specification derives them from the history of the searches
  \<open>(term, page)\<close>: the term of each URL is the term the URL was built from; the terms are
  collapsed, cut to the last six, and the final one is dropped.
\<close>

definition deriveRecentTerms :: "(string \<times> int) list \<Rightarrow> string list" where
  "deriveRecentTerms searches =
     butlast (take_last 6 (collapse_adjacent (map fst searches)))"

section \<open>Sorting the displayed list\<close>

text \<open>
  \<^verbatim>\<open>sortBy\<close> is imported from lodash, whose documentation gives it as a stable sort in
  ascending order of the key; it returns a new array.
\<close>

definition sortBy :: "('a \<Rightarrow> 'k::linorder) \<Rightarrow> 'a list \<Rightarrow> 'a list" where
  "sortBy f xs = sort_key f xs"

datatype SortKey = NONE | TITLE | AUTHOR | COMMENT | POINT

fun SORTS :: "SortKey \<Rightarrow> Story list \<Rightarrow> Story list" where
  "SORTS NONE list = list"
| "SORTS TITLE list = sortBy title list"
| "SORTS AUTHOR list = sortBy author list"
| "SORTS COMMENT list = rev (sortBy num_comments list)"
| "SORTS POINT list = rev (sortBy points list)"

text \<open>
  The list the component \<^verbatim>\<open>List\<close> displays for its sort state:
  \<^verbatim>\<open>sort.isReverse ? sortFunction(list).reverse() : sortFunction(list)\<close>.
\<close>

definition sortedList :: "Story list \<Rightarrow> SortKey \<Rightarrow> bool \<Rightarrow> Story list" where
  "sortedList list sortKey isReverse =
     (if isReverse then rev (SORTS sortKey list) else SORTS sortKey list)"

text \<open>
  \<^verbatim>\<open>handleSort\<close>: a click on the key that is active flips the direction, a click on another
  key makes it active with the direction not reversed.
\<close>

record SortState =
  sortKey :: SortKey
  isReverse :: bool

definition handleSort :: "SortState \<Rightarrow> SortKey \<Rightarrow> SortState" where
  "handleSort sortState clicked =
     \<lparr>sortKey = clicked,
      isReverse = (sortKey sortState = clicked \<and> \<not> isReverse sortState)\<rparr>"

text \<open>Sample stories for the concrete checks.\<close>

definition storyA :: Story where
  "storyA = \<lparr>objectID = ''1'', url = ''u1'', title = ''A'', author = ''x'',
             num_comments = 3, points = 7\<rparr>"

definition storyB :: Story where
  "storyB = \<lparr>objectID = ''2'', url = ''u2'', title = ''B'', author = ''y'',
             num_comments = 5, points = 7\<rparr>"

definition storyC :: Story where
  "storyC = \<lparr>objectID = ''3'', url = ''u3'', title = ''C'', author = ''z'',
             num_comments = 1, points = 2\<rparr>"

section \<open>Properties of the reducer\<close>

lemma filter_distinct_ids:
  "distinct (map objectID ss) \<Longrightarrow>
   filter (\<lambda>story. ident \<noteq> objectID story) ss = remove_single ident ss"
proof (induction ss)
  case Nil
  then show ?case by simp
next
  case (Cons s ss)
  show ?case
  proof (cases "objectID s = ident")
    case True
    with Cons.prems have "ident \<notin> objectID ` set ss" by auto
    then have "filter (\<lambda>story. ident \<noteq> objectID story) ss = ss"
      by (intro filter_True) auto
    with True show ?thesis by simp
  next
    case False
    with Cons show ?thesis by auto
  qed
qed

lemma remove_single_absent:
  "ident \<notin> set (map objectID ss) \<Longrightarrow> remove_single ident ss = ss"
  by (induction ss) auto

lemma remove_single_split:
  "objectID s = ident \<Longrightarrow> ident \<notin> set (map objectID pre) \<Longrightarrow>
   remove_single ident (pre @ s # post) = pre @ post"
  by (induction pre) auto

text \<open>
  C1. \<^verbatim>\<open>STORIES_FETCH_SUCCESS\<close> with a list and a page never throws; it clears both flags,
  stores the page, and the stories are the payload's list when the page is 0 and the
  previous stories followed by the payload's list (nothing dropped, reordered or
  deduplicated) otherwise.
\<close>

theorem fetch_success_effect:
  "\<exists>s'. storiesReducer s (STORIES_FETCH_SUCCESS list pageNo) = Inr s' \<and>
        isLoading s' = False \<and> isError s' = False \<and> page s' = pageNo \<and>
        data s' = (if pageNo = 0 then list else data s @ list)"
  by simp

text \<open>
  C7. \<^verbatim>\<open>STORIES_FETCH_FAILURE\<close> never throws; it returns the state with
  \<^verbatim>\<open>isLoading\<close> false and \<^verbatim>\<open>isError\<close> true, and the stories and the page of the input.
\<close>

theorem fetch_failure_effect:
  "\<exists>s'. storiesReducer s STORIES_FETCH_FAILURE = Inr s' \<and>
        isLoading s' = False \<and> isError s' = True \<and>
        data s' = data s \<and> page s' = page s"
  by simp

text \<open>
  C8. An action whose type tag is none of the four recognised ones makes the reducer
  throw: no state is returned.
\<close>

theorem unrecognised_action_throws:
  "action_type a \<notin> set recognised_types \<Longrightarrow> storiesReducer s a = Inl Error"
  by (cases a) (simp_all add: recognised_types_def)

theorem unrecognised_action_throws_witness:
  "action_type (OTHER_ACTION ''REMOVE_STORIES'') \<notin> set recognised_types \<and>
   storiesReducer initialState (OTHER_ACTION ''REMOVE_STORIES'') = Inl Error"
  using unrecognised_action_throws [of "OTHER_ACTION ''REMOVE_STORIES''" initialState]
  by (simp add: recognised_types_def)

text \<open>
  C9. Removing twice with the same identifier gives the state that removing once gives.
\<close>

theorem remove_story_idempotent:
  "objectID r' = objectID r \<Longrightarrow>
   \<exists>s1. storiesReducer s (REMOVE_STORY r) = Inr s1 \<and>
        storiesReducer s1 (REMOVE_STORY r') = Inr s1"
  by simp

theorem remove_story_idempotent_witness:
  "objectID (storyB\<lparr>title := ''other''\<rparr>) = objectID storyB \<and>
   (\<exists>s1. storiesReducer (initialState\<lparr>data := [storyA, storyB, storyC]\<rparr>)
            (REMOVE_STORY storyB) = Inr s1 \<and>
         storiesReducer s1 (REMOVE_STORY (storyB\<lparr>title := ''other''\<rparr>)) = Inr s1)"
  using remove_story_idempotent [of "storyB\<lparr>title := ''other''\<rparr>" storyB
      "initialState\<lparr>data := [storyA, storyB, storyC]\<rparr>"]
  by simp

text \<open>
  C10. \<^verbatim>\<open>REMOVE_STORY\<close> never throws and drops every story that carries the payload's
  identifier, also when several do: the stories left are exactly the others, in their
  order, none of them carries the identifier, and the flags and the page are unchanged.
\<close>

theorem remove_story_removes_all:
  "\<exists>s'. storiesReducer s (REMOVE_STORY r) = Inr s' \<and>
        data s' = filter (\<lambda>story. objectID story \<noteq> objectID r) (data s) \<and>
        objectID r \<notin> set (map objectID (data s')) \<and>
        isLoading s' = isLoading s \<and> isError s' = isError s \<and> page s' = page s"
proof -
  have "filter (\<lambda>story. objectID r \<noteq> objectID story) (data s) =
        filter (\<lambda>story. objectID story \<noteq> objectID r) (data s)"
    by (rule filter_cong) auto
  then show ?thesis by auto
qed

text \<open>
  C2. When no two stories share an identifier, \<^verbatim>\<open>REMOVE_STORY\<close> removes the single story
  whose identifier is the payload's (whatever its other fields are) and leaves the rest
  as they were: a list \<open>pre @ x # post\<close> with \<open>x\<close> carrying the identifier becomes
  \<open>pre @ post\<close>, and a list with no such story is unchanged.
\<close>

theorem remove_story_single:
  assumes "distinct (map objectID (data s))"
  shows "\<exists>s'. storiesReducer s (REMOVE_STORY r) = Inr s' \<and>
           data s' = remove_single (objectID r) (data s) \<and>
           (\<forall>pre x post. data s = pre @ x # post \<and> objectID x = objectID r
               \<longrightarrow> data s' = pre @ post) \<and>
           (objectID r \<notin> set (map objectID (data s)) \<longrightarrow> data s' = data s) \<and>
           isLoading s' = isLoading s \<and> isError s' = isError s \<and> page s' = page s"
proof -
  let ?s' = "s\<lparr>data := filter (\<lambda>story. objectID r \<noteq> objectID story) (data s)\<rparr>"
  have eq: "data ?s' = remove_single (objectID r) (data s)"
    using filter_distinct_ids [OF assms] by simp
  have split: "data ?s' = pre @ post"
    if "data s = pre @ x # post" and "objectID x = objectID r" for pre x post
  proof -
    from assms that have "objectID r \<notin> set (map objectID pre)" by auto
    with that eq show ?thesis by (simp add: remove_single_split)
  qed
  have absent: "data ?s' = data s" if "objectID r \<notin> set (map objectID (data s))"
    using that eq by (simp add: remove_single_absent)
  have "storiesReducer s (REMOVE_STORY r) = Inr ?s'" by simp
  moreover have "isLoading ?s' = isLoading s \<and> isError ?s' = isError s \<and> page ?s' = page s"
    by simp
  ultimately show ?thesis using eq split absent by blast
qed

theorem remove_story_single_witness:
  "distinct (map objectID [storyA, storyB, storyC]) \<and>
   (\<exists>s'. storiesReducer (initialState\<lparr>data := [storyA, storyB, storyC]\<rparr>)
            (REMOVE_STORY (storyB\<lparr>title := ''retitled''\<rparr>)) = Inr s' \<and>
         data s' = [storyA, storyC])"
proof -
  have d: "distinct (map objectID (data (initialState\<lparr>data := [storyA, storyB, storyC]\<rparr>)))"
    by (simp add: storyA_def storyB_def storyC_def)
  from remove_story_single [OF d, of "storyB\<lparr>title := ''retitled''\<rparr>"] d
  show ?thesis
    by (simp add: storyA_def storyB_def storyC_def)
qed

lemma reducer_keeps_flags:
  "storiesReducer s a = Inr s' \<Longrightarrow> \<not> (isLoading s \<and> isError s) \<Longrightarrow>
   \<not> (isLoading s' \<and> isError s')"
  by (cases a) auto

lemma reducer_recognised: "is_recognised a \<Longrightarrow> \<exists>s'. storiesReducer s a = Inr s'"
  by (cases a) auto

lemma dispatchAll_keeps_flags:
  "dispatchAll s as = Inr s' \<Longrightarrow> \<not> (isLoading s \<and> isError s) \<Longrightarrow>
   \<not> (isLoading s' \<and> isError s')"
proof (induction as arbitrary: s)
  case Nil
  then show ?case by simp
next
  case (Cons a as)
  from Cons.prems(1) obtain s1 where s1: "storiesReducer s a = Inr s1" "dispatchAll s1 as = Inr s'"
    by (auto split: sum.splits)
  from reducer_keeps_flags [OF s1(1) Cons.prems(2)] Cons.IH [OF s1(2)] show ?case by blast
qed

lemma dispatchAll_recognised:
  "list_all is_recognised as \<Longrightarrow> \<exists>s'. dispatchAll s as = Inr s'"
proof (induction as arbitrary: s)
  case Nil
  then show ?case by simp
next
  case (Cons a as)
  from Cons.prems have "is_recognised a" by simp
  from reducer_recognised [OF this] obtain s1 where "storiesReducer s a = Inr s1" by blast
  with Cons show ?case by auto
qed

text \<open>
  C3. From the initial state, every sequence of the four recognised actions is reduced
  without an exception, and in the state it reaches \<^verbatim>\<open>isLoading\<close> and \<^verbatim>\<open>isError\<close> are
  not both true.
\<close>

theorem flags_never_both:
  "list_all is_recognised as \<Longrightarrow>
   \<exists>s'. dispatchAll initialState as = Inr s' \<and> \<not> (isLoading s' \<and> isError s')"
proof -
  assume "list_all is_recognised as"
  then obtain s' where s': "dispatchAll initialState as = Inr s'"
    using dispatchAll_recognised by blast
  moreover have "\<not> (isLoading initialState \<and> isError initialState)"
    by (simp add: initialState_def)
  ultimately show ?thesis using dispatchAll_keeps_flags by blast
qed

theorem flags_never_both_witness:
  "list_all is_recognised
     [STORIES_FETCH_INIT, STORIES_FETCH_SUCCESS [storyA, storyB] 0, STORIES_FETCH_INIT,
      STORIES_FETCH_SUCCESS [storyC] 1, REMOVE_STORY storyB, STORIES_FETCH_INIT,
      STORIES_FETCH_FAILURE] \<and>
   (\<exists>s'. dispatchAll initialState
     [STORIES_FETCH_INIT, STORIES_FETCH_SUCCESS [storyA, storyB] 0, STORIES_FETCH_INIT,
      STORIES_FETCH_SUCCESS [storyC] 1, REMOVE_STORY storyB, STORIES_FETCH_INIT,
      STORIES_FETCH_FAILURE] = Inr s' \<and>
      data s' = [storyA, storyC] \<and> page s' = 1 \<and> \<not> isLoading s' \<and> isError s')"
  using flags_never_both [of
     "[STORIES_FETCH_INIT, STORIES_FETCH_SUCCESS [storyA, storyB] 0, STORIES_FETCH_INIT,
      STORIES_FETCH_SUCCESS [storyC] 1, REMOVE_STORY storyB, STORIES_FETCH_INIT,
      STORIES_FETCH_FAILURE]"]
  by (simp add: initialState_def storyA_def storyB_def storyC_def)

section \<open>Properties of the query URL\<close>

lemma lastIndexOf_absent: "c \<notin> set xs \<Longrightarrow> lastIndexOf xs c = - 1"
  by (induction xs) (auto simp: Let_def)

lemma lastIndexOf_last_occurrence:
  "c \<notin> set ys \<Longrightarrow> lastIndexOf (xs @ c # ys) c = int (length xs)"
  by (induction xs) (auto simp: Let_def lastIndexOf_absent)

lemma substring_middle:
  "substring (xs @ ys @ zs) (int (length xs)) (int (length xs + length ys)) = ys"
  by (simp add: substring_def Let_def min_def max_def)

lemma replace_prefix: "pat \<noteq> [] \<Longrightarrow> replace (pat @ s) pat [] = s"
  by (cases pat) simp_all

lemma digit_char_plain: "digit_char d \<noteq> CHR ''?'' \<and> digit_char d \<noteq> CHR ''&''"
  by (simp add: digit_char_def)

lemma nat_to_string_plain:
  "CHR ''?'' \<notin> set (nat_to_string n) \<and> CHR ''&'' \<notin> set (nat_to_string n)"
proof (induction n rule: nat_to_string.induct)
  case (1 n)
  show ?case
  proof (cases "n < 10")
    case True
    then show ?thesis using digit_char_plain [of n] by (auto simp: nat_to_string.simps [of n])
  next
    case False
    with "1" digit_char_plain [of "n mod 10"] show ?thesis
      by (auto simp: nat_to_string.simps [of n])
  qed
qed

lemma number_to_string_plain:
  "CHR ''?'' \<notin> set (number_to_string i) \<and> CHR ''&'' \<notin> set (number_to_string i)"
  by (simp add: number_to_string_def nat_to_string_plain)

lemma extractSearchTerm_getUrl:
  assumes "CHR ''?'' \<notin> set searchTerm"
  shows "extractSearchTerm (getUrl searchTerm pageNo) = searchTerm"
proof -
  let ?P = "API_BASE @ API_SEARCH"
  let ?R = "PARAM_PAGE @ number_to_string pageNo"
  let ?u = "getUrl searchTerm pageNo"
  have u1: "?u = ?P @ CHR ''?'' # (PARAM_SEARCH @ searchTerm @ CHR ''&'' # ?R)"
    by (simp add: getUrl_def)
  have u2: "?u = (?P @ CHR ''?'' # PARAM_SEARCH @ searchTerm) @ CHR ''&'' # ?R"
    by (simp add: getUrl_def)
  have u3: "?u = (?P @ ''?'') @ (PARAM_SEARCH @ searchTerm) @ (CHR ''&'' # ?R)"
    by (simp add: getUrl_def)
  have "CHR ''?'' \<notin> set (PARAM_SEARCH @ searchTerm @ CHR ''&'' # ?R)"
    using assms number_to_string_plain [of pageNo]
    by (simp add: PARAM_SEARCH_def PARAM_PAGE_def)
  then have q: "lastIndexOf ?u (CHR ''?'') = int (length ?P)"
    unfolding u1 by (rule lastIndexOf_last_occurrence)
  have "CHR ''&'' \<notin> set ?R"
    using number_to_string_plain [of pageNo] by (simp add: PARAM_PAGE_def)
  then have a: "lastIndexOf ?u (CHR ''&'') = int (length (?P @ CHR ''?'' # PARAM_SEARCH @ searchTerm))"
    unfolding u2 by (rule lastIndexOf_last_occurrence)
  have "substring ?u (lastIndexOf ?u (CHR ''?'') + 1) (lastIndexOf ?u (CHR ''&''))
        = substring ?u (int (length (?P @ ''?'')))
            (int (length (?P @ ''?'') + length (PARAM_SEARCH @ searchTerm)))"
    by (simp add: q a ac_simps)
  also have "\<dots> = PARAM_SEARCH @ searchTerm"
    by (subst u3) (rule substring_middle)
  finally have "extractSearchTerm ?u = replace (PARAM_SEARCH @ searchTerm) PARAM_SEARCH []"
    by (simp add: extractSearchTerm_def)
  also have "\<dots> = searchTerm"
    by (rule replace_prefix) (simp add: PARAM_SEARCH_def)
  finally show ?thesis .
qed

text \<open>
  C5. Extracting the term from a built URL gives the term back when the term has no question
  mark (lemma \<open>extractSearchTerm_getUrl\<close>). A term with a question mark is cut at its last
  one, since the extraction starts after the last question mark of the URL: the term
  \<^verbatim>\<open>a?b\<close> comes back as \<^verbatim>\<open>b\<close>.
\<close>

theorem extractSearchTerm_question_mark:
  "getUrl ''a?b'' 0 = ''https://hn.algolia.com/api/v1/search?query=a?b&page=0'' \<and>
   extractSearchTerm (getUrl ''a?b'' 0) = ''b''"
  by code_simp

section \<open>Properties of the search history\<close>

lemma reduce_step_collapse:
  "acc \<noteq> [] \<Longrightarrow> 0 < i \<Longrightarrow>
   reduce lastSearchesStep acc i urls =
     acc @ collapse_after (last acc) (map extractSearchTerm urls)"
proof (induction urls arbitrary: acc i)
  case Nil
  then show ?case by simp
next
  case (Cons u urls)
  show ?case
  proof (cases "extractSearchTerm u = last acc")
    case True
    with Cons.prems have "lastSearchesStep acc u i = acc"
      by (simp add: lastSearchesStep_def)
    with Cons.IH [of acc "Suc i"] Cons.prems True show ?thesis by simp
  next
    case False
    with Cons.prems have "lastSearchesStep acc u i = acc @ [extractSearchTerm u]"
      by (simp add: lastSearchesStep_def)
    with Cons.IH [of "acc @ [extractSearchTerm u]" "Suc i"] False show ?thesis by simp
  qed
qed

lemma reduce_collapse:
  "reduce lastSearchesStep [] 0 urls = collapse_adjacent (map extractSearchTerm urls)"
proof (cases urls)
  case Nil
  then show ?thesis by simp
next
  case (Cons u us)
  have "lastSearchesStep [] u 0 = [extractSearchTerm u]"
    by (simp add: lastSearchesStep_def)
  with Cons show ?thesis by (simp add: reduce_step_collapse)
qed

lemma slice_last_six: "slice xs (- 6) None = take_last 6 xs"
  by (simp add: slice_def take_last_def Let_def max_def nat_diff_distrib') 

lemma slice_drop_last: "slice xs 0 (Some (- 1)) = butlast xs"
  by (cases "xs = []") (simp_all add: slice_def Let_def butlast_conv_take max_def nat_diff_distrib')

lemma collapse_after_remdups_adj: "t # collapse_after t ts = remdups_adj (t # ts)"
  by (induction ts arbitrary: t) auto

lemma collapse_adjacent_remdups_adj: "collapse_adjacent ts = remdups_adj ts"
  by (cases ts) (simp_all add: collapse_after_remdups_adj)

lemma getLastSearches_collapse:
  "getLastSearches urls =
     butlast (take_last 6 (collapse_adjacent (map extractSearchTerm urls)))"
  by (simp add: getLastSearches_def reduce_collapse slice_last_six slice_drop_last)

lemma getLastSearches_length: "length (getLastSearches urls) \<le> 5"
  by (simp add: getLastSearches_collapse take_last_def)

lemma foldl_handleSearch:
  "foldl (\<lambda>urls (searchTerm, pageNo). handleSearch urls searchTerm pageNo) acc searches =
     acc @ map (\<lambda>s. getUrl (fst s) (snd s)) searches"
  by (induction searches arbitrary: acc) (auto simp: handleSearch_def)

lemma urlHistory_map: "urlHistory searches = map (\<lambda>s. getUrl (fst s) (snd s)) searches"
  by (simp add: urlHistory_def foldl_handleSearch)

text \<open>
  When no term of the history has a question mark, the code's result is the derivation of
  the specification: the terms of the searches, each term that equals its immediate
  predecessor dropped, the last six, without the final one.
\<close>

lemma getLastSearches_plain_terms:
  assumes "\<forall>s \<in> set searches. CHR ''?'' \<notin> set (fst s)"
  shows "getLastSearches (urlHistory searches) = deriveRecentTerms searches"
proof -
  from assms have "map extractSearchTerm (urlHistory searches) = map fst searches"
    by (simp add: urlHistory_map extractSearchTerm_getUrl)
  then show ?thesis
    by (simp add: getLastSearches_collapse deriveRecentTerms_def)
qed

lemma getLastSearches_example:
  "getLastSearches
     (urlHistory [(''a'', 0), (''a'', 1), (''b'', 0), (''b'', 1), (''b'', 2), (''c'', 0)])
   = [''a'', ''b'']"
  by code_simp

text \<open>
  C4. The code's recent terms are not the derivation of the specification on every
  history: the term it takes from a URL is what \<^verbatim>\<open>extractSearchTerm\<close> returns, which for a
  term with a question mark is not the term searched. For the searches \<^verbatim>\<open>a?b\<close>, \<^verbatim>\<open>b\<close>, \<^verbatim>\<open>c\<close>
  the derivation gives \<^verbatim>\<open>a?b\<close>, \<^verbatim>\<open>b\<close>; the code reads the terms as \<^verbatim>\<open>b\<close>, \<^verbatim>\<open>b\<close>, \<^verbatim>\<open>c\<close> and
  returns \<^verbatim>\<open>b\<close> alone.
\<close>

theorem getLastSearches_question_mark:
  "map extractSearchTerm (urlHistory [(''a?b'', 0), (''b'', 0), (''c'', 0)])
     = [''b'', ''b'', ''c''] \<and>
   getLastSearches (urlHistory [(''a?b'', 0), (''b'', 0), (''c'', 0)]) = [''b''] \<and>
   deriveRecentTerms [(''a?b'', 0), (''b'', 0), (''c'', 0)] = [''a?b'', ''b'']"
  by code_simp

section \<open>Properties of the sort\<close>

text \<open>
  For two stories with equal points, sorting by points and then sorting the result with
  the direction reversed does not give their input order back.
\<close>

theorem sort_point_toggle_counterexample:
  "points storyA = points storyB \<and>
   sortedList (sortedList [storyA, storyB] POINT False) POINT True = [storyB, storyA] \<and>
   [storyB, storyA] \<noteq> [storyA, storyB]"
  by (simp add: sortedList_def sortBy_def storyA_def storyB_def)

text \<open>
  C6. Sorting by points with the direction reversed is the stable ascending sort of the
  list (stories with equal points in their input order) and is the exact reverse of the
  descending display, in which stories with equal points are in the reverse of their input
  order; so are they when the descending display itself is sorted again with the direction
  reversed. Two clicks on the points header give the sort state back, and with it the
  display, which is always computed from the same input list.
\<close>

theorem sort_point_toggle:
  "sortedList items POINT True = rev (sortedList items POINT False) \<and>
   sortedList items POINT True = sortBy points items \<and>
   sorted (map points (sortedList items POINT True)) \<and>
   filter (\<lambda>x. points x = k) (sortedList items POINT True) = filter (\<lambda>x. points x = k) items \<and>
   filter (\<lambda>x. points x = k) (sortedList items POINT False)
     = rev (filter (\<lambda>x. points x = k) items) \<and>
   filter (\<lambda>x. points x = k) (sortedList (sortedList items POINT False) POINT True)
     = rev (filter (\<lambda>x. points x = k) items) \<and>
   handleSort (handleSort \<lparr>sortKey = POINT, isReverse = b\<rparr> POINT) POINT
     = \<lparr>sortKey = POINT, isReverse = b\<rparr>"
  by (simp add: sortedList_def sortBy_def sort_key_stable handleSort_def flip: rev_filter)

end
